theory Spec2Isabelle
  imports Complex_Main "HOL-Library.Sublist"
begin

section \<open>Text encoding recovery and normalization: the data model\<close>

text \<open>
  A Python \<open>str\<close> is a sequence of Unicode code points, a \<open>bytes\<close> object a sequence of
  octets. Code points are natural numbers here (the tables below are read off the source
  literals, one entry per source line), octets are natural numbers below 256.
\<close>

type_synonym ustr = "nat list"
type_synonym bytes = "nat list"

datatype pyval = Str ustr | Bytes bytes

datatype error =
  TypeError | ZeroDivisionError | LookupError | UnicodeDecodeError | IndexError |
  UnboundLocalError

subsection \<open>String primitives of the runtime\<close>

text \<open>\<open>old in text\<close> on strings: \<open>old\<close> occurs as a contiguous substring.\<close>

fun contains :: "ustr \<Rightarrow> ustr \<Rightarrow> bool" where
  "contains old [] = (old = [])"
| "contains old (c # cs) = (prefix old (c # cs) \<or> contains old cs)"

text \<open>
  \<open>text.replace(old, new)\<close>: the occurrences of \<open>old\<close> are found left to right without
  overlap and each is replaced by \<open>new\<close>; an empty \<open>old\<close> matches before every character
  and at the end.
\<close>

function str_replace :: "ustr \<Rightarrow> ustr \<Rightarrow> ustr \<Rightarrow> ustr" where
  "str_replace old new [] = (if old = [] then new else [])"
| "str_replace old new (c # cs) =
     (if old = [] then new @ c # str_replace old new cs
      else if prefix old (c # cs)
        then new @ str_replace old new (drop (length old) (c # cs))
      else c # str_replace old new cs)"
  by pat_completeness auto
termination
  by (relation "measure (\<lambda>(old, new, t). length t)") auto

text \<open>
  A dict literal keeps each key at the position of its first occurrence and gives it the
  value of its last occurrence; \<open>items()\<close> iterates in that order.
\<close>

fun dict_insert :: "ustr \<Rightarrow> ustr \<Rightarrow> (ustr \<times> ustr) list \<Rightarrow> (ustr \<times> ustr) list" where
  "dict_insert k v [] = [(k, v)]"
| "dict_insert k v ((k', v') # d) =
     (if k = k' then (k, v) # d else (k', v') # dict_insert k v d)"

definition dict_literal :: "(ustr \<times> ustr) list \<Rightarrow> (ustr \<times> ustr) list" where
  "dict_literal kvs = foldl (\<lambda>d (k, v). dict_insert k v d) [] kvs"

text \<open>\<open>for old, new in table.items(): text = text.replace(old, new)\<close>\<close>

definition replace_all :: "(ustr \<times> ustr) list \<Rightarrow> ustr \<Rightarrow> ustr" where
  "replace_all table text = foldl (\<lambda>t (old, new). str_replace old new t) text table"

section \<open>Legacy script repair (\<open>decode_indic_text\<close>, first part)\<close>

text \<open>The dict literal \<open>replacements\<close> of \<open>decode_indic_text\<close>, entry by entry.\<close>

definition replacements_literal :: "(ustr \<times> ustr) list" where
  "replacements_literal =
    [([0x28, 0x52, 0x29], [0x930]), ([0x2B, 0x2F, 0x2D], [0x932]),
     ([0xC9], [0x93E]), ([0xE8], [0x948]), ([0xFA], [0x930]), ([0xF9], [0x926]),
     ([0xFE], [0x939]), ([0xF2], [0x915]), ([0xE4], [0x947]), ([0xE6], [0x94B]),
     ([0xCE], [0x93F]), ([0xF5], [0x91F]), ([0xA8], [0x92E]), ([0xBD], [0x939]),
     ([0xCA], [0x93F]), ([0xBA], [0x938]), ([0xC6], [0x902]), ([0xC7], [0x91A]),
     ([0xAA], [0x92F]), ([0xA6], [0x92D]), ([0x50], [0x936]), ([0xFF], [0x939]),
     ([0xD2], [0x940]), ([0xD3], [0x940]), ([0xD4], [0x940]), ([0xD5], [0x940]),
     ([0xD6], [0x940]), ([0xD7], [0x940]), ([0xD8], [0x940]), ([0xD9], [0x940]),
     ([0xDA], [0x940]), ([0xDB], [0x940]), ([0xDC], [0x940]), ([0xDD], [0x940]),
     ([0xDE], [0x940]), ([0xDF], [0x940]), ([0xE0], [0x940]), ([0xE1], [0x940]),
     ([0xE2], [0x940]), ([0xE3], [0x940]), ([0xE4], [0x947]), ([0xE5], [0x947]),
     ([0xE6], [0x94B]), ([0xE7], [0x94B]), ([0xE8], [0x948]), ([0xE9], [0x948]),
     ([0xEA], [0x948]), ([0xEB], [0x948]), ([0xEC], [0x948]), ([0xED], [0x948]),
     ([0xEE], [0x948]), ([0xEF], [0x948]), ([0xF0], [0x948]), ([0xF1], [0x948]),
     ([0xF2], [0x915]), ([0xF3], [0x915]), ([0xF4], [0x915]), ([0xF5], [0x91F]),
     ([0xF6], [0x91F]), ([0xF7], [0x91F]), ([0xF8], [0x91F]), ([0xF9], [0x926]),
     ([0xFA], [0x930]), ([0xFB], [0x930]), ([0xFC], [0x930]), ([0xFD], [0x930]),
     ([0xFE], [0x939]), ([0xFF], [0x939])]"

definition replacements :: "(ustr \<times> ustr) list" where
  "replacements = dict_literal replacements_literal"

text \<open>\<open>indic_markers\<close>: nine one-character strings.\<close>

definition indic_markers :: "ustr list" where
  "indic_markers = [[0xC9], [0xFA], [0xF9], [0xFE], [0xF2], [0xE4], [0xE6], [0xCE], [0xF5]]"

text \<open>\<open>is_indic = any(marker in text for marker in indic_markers)\<close>, on a string.\<close>

definition is_indic :: "ustr \<Rightarrow> bool" where
  "is_indic text = list_ex (\<lambda>marker. contains marker text) indic_markers"

text \<open>
  The repair step: the marker check and, under it, the substitution loop
  (\<open>if is_indic: for old, new in replacements.items(): text = text.replace(old, new)\<close>).
\<close>

definition repair :: "ustr \<Rightarrow> ustr" where
  "repair text = (if is_indic text then replace_all replacements text else text)"

text \<open>
  The table read as a map on characters, in the words of the specification: a character
  that is a key of the table is replaced by its value, any other character is left as it
  is. The repair step is compared with it below.
\<close>

definition substitute :: "(ustr \<times> ustr) list \<Rightarrow> nat \<Rightarrow> ustr" where
  "substitute table c = (case map_of table [c] of Some new \<Rightarrow> new | None \<Rightarrow> [c])"

section \<open>The Unicode character classes the code tests\<close>

text \<open>
  Whitespace as \<open>str.isspace\<close>, \<open>str.strip()\<close> and the regular expression class \<open>\s\<close> see it
  (the three agree on strings): the complete list of the interpreter.
\<close>

definition is_space :: "nat \<Rightarrow> bool" where
  "is_space c =
     ((0x09 \<le> c \<and> c \<le> 0x0D) \<or> (0x1C \<le> c \<and> c \<le> 0x20) \<or> c = 0x85 \<or> c = 0xA0 \<or>
      c = 0x1680 \<or> (0x2000 \<le> c \<and> c \<le> 0x200A) \<or> c = 0x2028 \<or> c = 0x2029 \<or>
      c = 0x202F \<or> c = 0x205F \<or> c = 0x3000)"

text \<open>
  The interpreter and the libraries the code calls. Below U+0100 the character classes are
  written out (they are the same in every version of the character database); above, the
  database is a parameter. \<open>chardet.detect\<close> and the codecs are external collaborators: the
  guess is an optional codec name with a confidence, a decode either returns a string or
  raises (\<open>Inl\<close>). Decoding UTF-8 with \<open>errors='replace'\<close> cannot fail and is a total function.
\<close>

record runtime =
  printable_hi :: "nat \<Rightarrow> bool"
  alnum_hi :: "nat \<Rightarrow> bool"
  chardet_detect :: "bytes \<Rightarrow> string option \<times> rat"
  codec_decode :: "string \<Rightarrow> bytes \<Rightarrow> error + ustr"
  codec_decode_replace :: "string \<Rightarrow> bytes \<Rightarrow> error + ustr"
  utf8_decode_replace :: "bytes \<Rightarrow> ustr"

text \<open>
  \<open>str.isprintable\<close>: every character but the categories Other and Separator, the space
  U+0020 excepted. In Latin-1 that leaves U+0020..U+007E and U+00A1..U+00FF without the soft
  hyphen U+00AD; no whitespace character above U+00FF is printable.
\<close>

definition isprintable :: "runtime \<Rightarrow> nat \<Rightarrow> bool" where
  "isprintable rt c =
     (if c < 0x100 then (0x20 \<le> c \<and> c \<le> 0x7E) \<or> (0xA1 \<le> c \<and> c \<noteq> 0xAD)
      else \<not> is_space c \<and> printable_hi rt c)"

text \<open>
  \<open>\w\<close> in a string pattern: alphanumeric (letter, decimal, digit or numeric) or underscore.
\<close>

definition is_alnum_latin1 :: "nat \<Rightarrow> bool" where
  "is_alnum_latin1 c =
     ((0x30 \<le> c \<and> c \<le> 0x39) \<or> (0x41 \<le> c \<and> c \<le> 0x5A) \<or> (0x61 \<le> c \<and> c \<le> 0x7A) \<or>
      c = 0xAA \<or> c = 0xB2 \<or> c = 0xB3 \<or> c = 0xB5 \<or> c = 0xB9 \<or> c = 0xBA \<or>
      (0xBC \<le> c \<and> c \<le> 0xBE) \<or> (0xC0 \<le> c \<and> c \<le> 0xD6) \<or> (0xD8 \<le> c \<and> c \<le> 0xF6) \<or>
      (0xF8 \<le> c \<and> c \<le> 0xFF))"

definition is_word :: "runtime \<Rightarrow> nat \<Rightarrow> bool" where
  "is_word rt c = (if c < 0x100 then is_alnum_latin1 c \<or> c = 0x5F else alnum_hi rt c)"

text \<open>An ASCII literal of the source as code points.\<close>

definition lit :: "string \<Rightarrow> ustr" where
  "lit s = map of_char s"

section \<open>Regular expression substitutions and \<open>strip\<close>\<close>

text \<open>\<open>re.sub(r'\s+', ' ', text)\<close>: every maximal run of whitespace becomes one space.\<close>

function collapse_ws :: "ustr \<Rightarrow> ustr" where
  "collapse_ws [] = []"
| "collapse_ws (c # cs) =
     (if is_space c then 0x20 # collapse_ws (dropWhile is_space cs) else c # collapse_ws cs)"
  by pat_completeness auto
termination
  by (relation "measure length") (auto simp: length_dropWhile_le less_Suc_eq_le)

text \<open>
  \<open>re.sub(r'\n\s*\n', '\n\n', text)\<close>: at a newline, \<open>\s*\<close> takes the whole whitespace run
  that follows and gives back to the last newline in it; when the run holds a newline, the
  match (up to and with that newline) becomes two newlines and the scan goes on after it.
\<close>

function sub_newlines :: "ustr \<Rightarrow> ustr" where
  "sub_newlines [] = []"
| "sub_newlines (c # cs) =
     (let run = takeWhile is_space cs in
      if c = 0x0A \<and> 0x0A \<in> set run
        then [0x0A, 0x0A] @
          sub_newlines (drop (length run - length (takeWhile (\<lambda>x. x \<noteq> 0x0A) (rev run))) cs)
      else c # sub_newlines cs)"
  by pat_completeness auto
termination
  by (relation "measure length") auto

text \<open>\<open>text.strip()\<close>: leading and trailing whitespace removed.\<close>

definition strip :: "ustr \<Rightarrow> ustr" where
  "strip text = rev (dropWhile is_space (rev (dropWhile is_space text)))"

section \<open>\<open>normalize_text\<close>\<close>

definition normalize_text :: "runtime \<Rightarrow> ustr \<Rightarrow> ustr" where
  "normalize_text rt text0 =
     (let text = filter (\<lambda>char. isprintable rt char \<or> char \<in> set [0x0A, 0x09]) text0;
          text = collapse_ws text;
          text = str_replace [0xE2, 0x20AC, 0x2122] [0x27] text;
          text = str_replace [0xE2, 0x20AC, 0x153] [0x22] text;
          text = str_replace [0xE2, 0x20AC] [0x22] text;
          text = str_replace [0xC2] [] text;
          text = str_replace [0x64, 0x65, 0x67, 0xFC] [0x64, 0x65, 0x67] text;
          text = str_replace [0x28, 0x63, 0x29] [0xA9] text;
          text = collapse_ws text;
          text = sub_newlines text
      in strip text)"

text \<open>The six patterns \<open>normalize_text\<close> rewrites, in the order of the source.\<close>

definition artifact_patterns :: "ustr list" where
  "artifact_patterns =
     [[0xE2, 0x20AC, 0x2122], [0xE2, 0x20AC, 0x153], [0xE2, 0x20AC], [0xC2],
      [0x64, 0x65, 0x67, 0xFC], [0x28, 0x63, 0x29]]"

section \<open>\<open>ContentExporters.clean_text\<close> of app.py: the generic text cleaner\<close>

text \<open>The characters the class \<open>[^\w\s\.\,\;\:\!\?\-\(\)\[\]\{\}]\<close> does not match.\<close>

definition clean_punctuation :: "nat list" where
  "clean_punctuation = lit ''.,;:!?-()[]{}''"

definition clean_keeps :: "runtime \<Rightarrow> nat \<Rightarrow> bool" where
  "clean_keeps rt c = (is_word rt c \<or> is_space c \<or> c \<in> set clean_punctuation)"

definition clean_text :: "runtime \<Rightarrow> ustr \<Rightarrow> ustr" where
  "clean_text rt text0 =
     (let text = collapse_ws text0;
          text = filter (clean_keeps rt) text
      in strip text)"

section \<open>\<open>ContentExporters.clean_text\<close> of whitepaper/exporters.py: the Latin-1 sanitizer\<close>

text \<open>
  The dict literal \<open>replacements\<close> of the sanitizer, entry by entry. The keys of its third
  and fourth lines are the ASCII double quote. On its fifth line three ASCII apostrophes
  open a triple-quoted string, which the three apostrophes of the sixth line close: the two
  lines are one entry, whose key is the 40 characters in between (a colon, a space, an
  apostrophe between double quotes, a comma, the comment, a newline and the indentation of
  twelve spaces) and whose value is the apostrophe.
\<close>

definition latin1_replacements_literal :: "(ustr \<times> ustr) list" where
  "latin1_replacements_literal =
    [([0x2013], lit ''-''), ([0x2014], lit ''--''),
     ([0x22], [0x22]), ([0x22], [0x22]),
     ([0x3A, 0x20, 0x22, 0x27, 0x22, 0x2C, 0x20, 0x20, 0x23, 0x20] @ lit ''left single quote'' @
      [0x0A, 0x20, 0x20, 0x20, 0x20, 0x20, 0x20, 0x20, 0x20, 0x20, 0x20, 0x20, 0x20], [0x27]),
     ([0x2026], lit ''...''), ([0x2022], lit ''*''),
     ([0x2192], lit ''->''), ([0x2190], lit ''<-''),
     ([0xB1], lit ''+/-''), ([0xD7], lit ''x''), ([0xF7], lit ''/''), ([0xB0], lit '' deg''),
     ([0x3A9], lit ''Ohm''), ([0x3B1], lit ''alpha''), ([0x3B2], lit ''beta''),
     ([0x3B3], lit ''gamma''), ([0x3B4], lit ''delta''), ([0x3BC], lit ''mu''),
     ([0x3C0], lit ''pi''), ([0x221E], lit ''infinity''),
     ([0xA9], lit ''(c)''), ([0xAE], lit ''(R)''), ([0x2122], lit ''(TM)''),
     ([0x20AC], lit ''EUR''), ([0xA3], lit ''GBP''), ([0xA5], lit ''JPY''),
     ([0xA7], lit ''S''), ([0xB6], lit ''P''),
     ([0x2020], lit ''+''), ([0x2021], lit ''++''), ([0x2022], lit ''*''),
     ([0x2026], lit ''...''), ([0x2032], [0x27]), ([0x2033], [0x22]), ([0x2034], [0x22]),
     ([0x2035], [0x60]), ([0x2036], [0x60, 0x60]), ([0x2037], [0x60, 0x60, 0x60]),
     ([0x2038], lit ''^''), ([0x203B], lit ''*''), ([0x203C], lit ''!!''),
     ([0x2047], lit ''??''), ([0x2048], lit ''?!''), ([0x2049], lit ''!?''),
     ([0x204E], lit ''*''), ([0x204F], lit '';''), ([0x2050], lit ''P''),
     ([0x2051], lit ''**''), ([0x2052], lit ''%''), ([0x2053], lit ''~''),
     ([0x2054], lit ''_''), ([0x2055], lit ''*''), ([0x2056], lit ''...''),
     ([0x2057], lit ''....''), ([0x2058], lit ''-''), ([0x2059], lit ''.....''),
     ([0x205A], lit ''..''), ([0x205B], lit ''....''), ([0x205C], lit ''...''),
     ([0x205D], lit ''...''), ([0x205E], lit ''....'')]"

definition latin1_replacements :: "(ustr \<times> ustr) list" where
  "latin1_replacements = dict_literal latin1_replacements_literal"

text \<open>
  A codec name with \<open>errors='replace'\<close>: UTF-8 is the total decoder of the runtime, any
  other name is looked up (and may be unknown).
\<close>

definition decode_replace :: "runtime \<Rightarrow> string \<Rightarrow> bytes \<Rightarrow> error + ustr" where
  "decode_replace rt encoding b =
     (if encoding = ''utf-8'' then Inr (utf8_decode_replace rt b)
      else codec_decode_replace rt encoding b)"

text \<open>
  Bytes are first decoded with the detected encoding (\<open>detected['encoding'] or 'utf-8'\<close>,
  \<open>errors='replace'\<close>); then the table is applied and every character from U+0100 on is
  dropped.
\<close>

definition sanitize_clean_text :: "runtime \<Rightarrow> pyval \<Rightarrow> error + ustr" where
  "sanitize_clean_text rt v =
     (case (case v of
              Bytes b \<Rightarrow>
                (let (detected_encoding, confidence) = chardet_detect rt b;
                     encoding = (case detected_encoding of
                                   None \<Rightarrow> ''utf-8''
                                 | Some e \<Rightarrow> if e = [] then ''utf-8'' else e)
                 in decode_replace rt encoding b)
            | Str t \<Rightarrow> Inr t) of
        Inl e \<Rightarrow> Inl e
      | Inr text \<Rightarrow> Inr (filter (\<lambda>char. char < 256) (replace_all latin1_replacements text)))"

section \<open>\<open>decode_indic_text\<close>: the decode chain\<close>

text \<open>
  \<open>text.encode('utf-8', errors='ignore')\<close>: surrogates cannot be encoded and are ignored.
  (A Python string holds no code point from 0x110000 on.)
\<close>

definition utf8_encode_char :: "nat \<Rightarrow> bytes" where
  "utf8_encode_char c =
     (if c < 0x80 then [c]
      else if c < 0x800 then [0xC0 + c div 64, 0x80 + c mod 64]
      else if c < 0x10000 then
        (if 0xD800 \<le> c \<and> c < 0xE000 then []
         else [0xE0 + c div 4096, 0x80 + c div 64 mod 64, 0x80 + c mod 64])
      else if c < 0x110000 then
        [0xF0 + c div 262144, 0x80 + c div 4096 mod 64, 0x80 + c div 64 mod 64, 0x80 + c mod 64]
      else [])"

definition utf8_encode_ignore :: "ustr \<Rightarrow> bytes" where
  "utf8_encode_ignore text = concat (map utf8_encode_char text)"

text \<open>
  \<open>sum(c.isprintable() for c in decoded) / len(decoded) > 0.8\<close>: an empty string raises
  ZeroDivisionError; otherwise the quotient is compared with four fifths (as exact
  numbers: \<open>5 * printable > 4 * len\<close>).
\<close>

definition printable_count :: "runtime \<Rightarrow> ustr \<Rightarrow> nat" where
  "printable_count rt decoded = length (filter (isprintable rt) decoded)"

definition ratio_above_threshold :: "runtime \<Rightarrow> ustr \<Rightarrow> error + bool" where
  "ratio_above_threshold rt decoded =
     (if length decoded = 0 then Inl ZeroDivisionError
      else Inr (4 * length decoded < 5 * printable_count rt decoded))"

text \<open>
  The ISCII attempt of the repair branch, on the encoded text; inside \<open>try\<close>, any raise is
  swallowed by the bare \<open>except\<close>. The result is the string the branch returns, if it returns.
\<close>

definition iscii_attempt :: "runtime \<Rightarrow> bytes \<Rightarrow> ustr option" where
  "iscii_attempt rt text =
     (case decode_replace rt ''iscii'' text of
        Inl e \<Rightarrow> None
      | Inr decoded \<Rightarrow>
          (case ratio_above_threshold rt decoded of
             Inl e \<Rightarrow> None
           | Inr ok \<Rightarrow> if ok then Some decoded else None))"

definition encodings_to_try :: "string list" where
  "encodings_to_try =
     [''utf-8'', ''utf-16'', ''utf-32'', ''iso-8859-1'', ''cp1252'', ''ascii'', ''latin1'',
      ''latin_1'', ''iso-8859-15'', ''windows-1252'', ''mac_roman'']"

text \<open>
  \<open>if detected['confidence'] > 0.8: try: return text.decode(detected['encoding'])\<close>: no
  printable-ratio test on this path. A missing encoding name makes \<open>decode\<close> raise, which
  the bare \<open>except\<close> swallows.
\<close>

definition detected_decode :: "runtime \<Rightarrow> bytes \<Rightarrow> ustr option" where
  "detected_decode rt text =
     (let (detected_encoding, confidence) = chardet_detect rt text in
      if 4 / 5 < confidence then
        (case detected_encoding of
           None \<Rightarrow> None
         | Some encoding \<Rightarrow>
             (case codec_decode rt encoding text of Inl e \<Rightarrow> None | Inr decoded \<Rightarrow> Some decoded))
      else None)"

text \<open>The loop over \<open>encodings_to_try\<close>: the first accepted decode is returned.\<close>

fun try_encodings :: "runtime \<Rightarrow> string list \<Rightarrow> bytes \<Rightarrow> ustr option" where
  "try_encodings rt [] text = None"
| "try_encodings rt (encoding # rest) text =
     (case codec_decode rt encoding text of
        Inl e \<Rightarrow> try_encodings rt rest text
      | Inr decoded \<Rightarrow>
          (case ratio_above_threshold rt decoded of
             Inl e \<Rightarrow> try_encodings rt rest text
           | Inr ok \<Rightarrow> if ok then Some decoded else try_encodings rt rest text))"

text \<open>From \<open>chardet.detect\<close> to the final return, on the encoded text.\<close>

definition decode_bytes :: "runtime \<Rightarrow> bytes \<Rightarrow> ustr" where
  "decode_bytes rt text =
     (case detected_decode rt text of
        Some decoded \<Rightarrow> decoded
      | None \<Rightarrow>
          (case try_encodings rt encodings_to_try text of
             Some decoded \<Rightarrow> decoded
           | None \<Rightarrow> utf8_decode_replace rt text))"

text \<open>
  The body of the function on a string argument: the repair step with the ISCII attempt,
  then the chain. After the attempt \<open>text\<close> is the encoded repaired text, whether the
  attempt raised or its result was rejected.
\<close>

definition decode_str :: "runtime \<Rightarrow> ustr \<Rightarrow> ustr" where
  "decode_str rt text0 =
     (if is_indic text0 then
        (let text = replace_all replacements text0;
             text = utf8_encode_ignore text
         in case iscii_attempt rt text of
              Some decoded \<Rightarrow> decoded
            | None \<Rightarrow> decode_bytes rt text)
      else decode_bytes rt (utf8_encode_ignore text0))"

text \<open>
  \<open>marker in text\<close> on either argument type: a string marker is searched in a string;
  tested against a bytes object the operator raises TypeError.
\<close>

fun marker_in :: "ustr \<Rightarrow> pyval \<Rightarrow> error + bool" where
  "marker_in marker (Str text) = Inr (contains marker text)"
| "marker_in marker (Bytes b) = Inl TypeError"

text \<open>
  \<open>any(marker in text for marker in indic_markers)\<close>: the generator is consumed up to the
  first true test, and an exception of a test leaves \<open>any\<close>.
\<close>

fun any_marker_in :: "ustr list \<Rightarrow> pyval \<Rightarrow> error + bool" where
  "any_marker_in [] text = Inr False"
| "any_marker_in (marker # markers) text =
     (case marker_in marker text of
        Inl e \<Rightarrow> Inl e
      | Inr found \<Rightarrow> if found then Inr True else any_marker_in markers text)"

text \<open>
  The whole function. The marker check is outside every \<open>try\<close>, and so is the substitution
  loop, whose \<open>text.replace(old, new)\<close> has string arguments and raises TypeError on a bytes
  object. Past the check, a string goes through \<open>decode_str\<close> and a bytes object, which
  every \<open>isinstance(text, str)\<close> test leaves as it is, through \<open>decode_bytes\<close>.
\<close>

definition decode_indic_text :: "runtime \<Rightarrow> pyval \<Rightarrow> error + ustr" where
  "decode_indic_text rt text =
     (case any_marker_in indic_markers text of
        Inl e \<Rightarrow> Inl e
      | Inr found \<Rightarrow>
          (case text of
             Str s \<Rightarrow> Inr (decode_str rt s)
           | Bytes b \<Rightarrow> if found then Inl TypeError else Inr (decode_bytes rt b)))"

text \<open>
  A candidate of the loop is accepted when its decode succeeds and the printable ratio of
  the result is above the threshold.
\<close>

definition candidate_accepted :: "runtime \<Rightarrow> string \<Rightarrow> bytes \<Rightarrow> bool" where
  "candidate_accepted rt encoding text =
     (case codec_decode rt encoding text of
        Inl e \<Rightarrow> False
      | Inr decoded \<Rightarrow> ratio_above_threshold rt decoded = Inr True)"

section \<open>\<open>translate_to_english\<close>\<close>

text \<open>
  The model call is an external collaborator: it returns the response text or raises an
  \<open>Exception\<close> with a message (\<open>str(e)\<close>). The handler is \<open>except Exception\<close>; interrupts of
  the process, which are not \<open>Exception\<close> instances, are outside the model. The function
  returns what it printed and its result.
\<close>

datatype exc = Exception ustr

definition translate_prompt :: "ustr \<Rightarrow> ustr" where
  "translate_prompt text =
     lit ''Translate the following Hindi/Devanagari text to English. '' @ [0x0A] @
     lit ''Keep technical terms as is, and maintain any numerical values or measurements exactly.'' @ [0x0A] @
     lit ''Preserve formatting and structure of the text.'' @ [0x0A, 0x0A] @
     lit ''Text to translate:'' @ [0x0A] @ text @ [0x0A, 0x0A] @
     lit ''Please provide a clear and accurate translation while keeping technical terminology intact.''"

definition translate_to_english :: "(ustr \<Rightarrow> exc + ustr) \<Rightarrow> ustr \<Rightarrow> ustr list \<times> (exc + ustr)" where
  "translate_to_english model text =
     (case model (translate_prompt text) of
        Inr response_text \<Rightarrow> ([], Inr response_text)
      | Inl (Exception msg) \<Rightarrow> ([lit ''Translation error: '' @ msg], Inr text))"

section \<open>The page loop of \<open>research_converter_page\<close>\<close>

text \<open>\<open>str(i)\<close> of a natural number: its decimal digits.\<close>

function str_nat :: "nat \<Rightarrow> ustr" where
  "str_nat n = (if n < 10 then [0x30 + n] else str_nat (n div 10) @ [0x30 + n mod 10])"
  by pat_completeness auto
termination
  by (relation "measure id") auto

definition page_marker :: "nat \<Rightarrow> ustr" where
  "page_marker i = lit ''=== Page '' @ str_nat i @ lit '' ===''"

definition raw_page_marker :: "nat \<Rightarrow> ustr" where
  "raw_page_marker i = lit ''=== Page '' @ str_nat i @ lit '' Raw ===''"

text \<open>
  \<open>for i, page in enumerate(pdf_reader.pages, 1)\<close> over the extracted page texts; the
  accumulators are \<open>raw_text\<close> and \<open>processed_text\<close>. A page whose text is empty is skipped
  by \<open>if page_text:\<close>; the counter still advances.
\<close>

fun process_pages :: "runtime \<Rightarrow> nat \<Rightarrow> ustr list \<Rightarrow> ustr \<times> ustr \<Rightarrow> error + ustr \<times> ustr" where
  "process_pages rt i [] acc = Inr acc"
| "process_pages rt i (page_text # pages) (raw_text, processed_text) =
     (if page_text \<noteq> [] then
        (case decode_indic_text rt (Str page_text) of
           Inl e \<Rightarrow> Inl e
         | Inr decoded_text \<Rightarrow>
             (let normalized_text = normalize_text rt decoded_text;
                  cleaned_text = clean_text rt normalized_text
              in process_pages rt (Suc i) pages
                   (raw_text @ [0x0A] @ raw_page_marker i @ [0x0A] @ page_text @ [0x0A],
                    processed_text @ [0x0A] @ page_marker i @ [0x0A] @ cleaned_text @ [0x0A])))
      else process_pages rt (Suc i) pages (raw_text, processed_text))"

definition process_document :: "runtime \<Rightarrow> ustr list \<Rightarrow> error + ustr \<times> ustr" where
  "process_document rt pages = process_pages rt 1 pages ([], [])"

text \<open>
  What one page contributes to each accumulator: the marker line with the page's number,
  then the page's text (raw, or decoded, normalized and cleaned).
\<close>

definition raw_block :: "nat \<times> ustr \<Rightarrow> ustr" where
  "raw_block = (\<lambda>(i, page_text). [0x0A] @ raw_page_marker i @ [0x0A] @ page_text @ [0x0A])"

definition page_block :: "runtime \<Rightarrow> nat \<times> ustr \<Rightarrow> ustr" where
  "page_block rt = (\<lambda>(i, page_text).
     [0x0A] @ page_marker i @ [0x0A] @
     clean_text rt (normalize_text rt (decode_str rt page_text)) @ [0x0A])"

definition has_text :: "nat \<times> ustr \<Rightarrow> bool" where
  "has_text = (\<lambda>(i, page_text). page_text \<noteq> [])"

section \<open>\<open>process_for_research\<close> of whitepaper/encoding_detector.py\<close>

text \<open>
  The sibling loop over the extracted chunks (\<open>enumerate\<close> from 0, marker number \<open>i + 1\<close>).
  The body runs inside \<open>try\<close>; \<open>encodings[i]\<close> raises IndexError past the end of the list
  and an unknown codec name raises LookupError, both caught. The handler formats the
  local \<open>encoding\<close> into its warning before it appends the chunk's own text: where no
  iteration has bound \<open>encoding\<close> yet, that raises UnboundLocalError, which propagates.
  The warning itself is user interface and is not part of the model.
\<close>

record chunk =
  chunk_text :: ustr
  chunk_bytes :: bytes

definition encoding_or_utf8 :: "string option \<Rightarrow> string" where
  "encoding_or_utf8 e = (case e of None \<Rightarrow> ''utf-8'' | Some n \<Rightarrow> if n = [] then ''utf-8'' else n)"

fun research_pages :: "runtime \<Rightarrow> nat \<Rightarrow> chunk list \<Rightarrow> string option list \<Rightarrow> string option \<Rightarrow> ustr
    \<Rightarrow> error + ustr" where
  "research_pages rt i [] encodings encoding processed_text = Inr processed_text"
| "research_pages rt i (chunk # text_chunks) encodings encoding processed_text =
     (if i < length encodings then
        (let encoding' = encoding_or_utf8 (encodings ! i) in
         case decode_replace rt encoding' (chunk_bytes chunk) of
           Inr decoded_text \<Rightarrow>
             research_pages rt (Suc i) text_chunks encodings (Some encoding')
               (processed_text @ [0x0A] @ page_marker (i + 1) @ [0x0A] @ decoded_text @ [0x0A])
         | Inl e \<Rightarrow>
             research_pages rt (Suc i) text_chunks encodings (Some encoding')
               (processed_text @ [0x0A] @ page_marker (i + 1) @ [0x0A] @ chunk_text chunk @ [0x0A]))
      else
        (case encoding of
           None \<Rightarrow> Inl UnboundLocalError
         | Some e \<Rightarrow>
             research_pages rt (Suc i) text_chunks encodings encoding
               (processed_text @ [0x0A] @ page_marker (i + 1) @ [0x0A] @ chunk_text chunk @ [0x0A])))"

definition process_for_research :: "runtime \<Rightarrow> chunk list \<Rightarrow> string option list \<Rightarrow> error + ustr" where
  "process_for_research rt text_chunks encodings =
     research_pages rt 0 text_chunks encodings None []"

definition research_block :: "runtime \<Rightarrow> string option list \<Rightarrow> nat \<times> chunk \<Rightarrow> ustr" where
  "research_block rt encodings = (\<lambda>(i, chunk).
     [0x0A] @ page_marker (i + 1) @ [0x0A] @
     (case decode_replace rt (encoding_or_utf8 (encodings ! i)) (chunk_bytes chunk) of
        Inr decoded_text \<Rightarrow> decoded_text
      | Inl e \<Rightarrow> chunk_text chunk) @ [0x0A])"

section \<open>Whitespace-normal strings\<close>

text \<open>
  A string is whitespace-normal when its only whitespace is the space U+0020 and no space
  is followed by whitespace: the shape \<open>re.sub(r'\s+', ' ', text)\<close> produces.
\<close>

fun ws_normal :: "ustr \<Rightarrow> bool" where
  "ws_normal [] = True"
| "ws_normal [c] = (if is_space c then c = 0x20 else True)"
| "ws_normal (c # d # cs) =
     ((if is_space c then c = 0x20 \<and> \<not> is_space d else True) \<and> ws_normal (d # cs))"

section \<open>A concrete runtime for evaluation\<close>

text \<open>
  The theorems below hold for every runtime. To evaluate the functions on concrete inputs
  a runtime is fixed here: a small codec registry (ASCII, Latin-1 under its three names,
  strict UTF-8, UTF-16 with byte order mark or little-endian; every other name is unknown
  to it and raises LookupError), a prober that answers as \<open>chardet\<close> does on the inputs
  where its answer is fixed by its code (no data: no guess, confidence 0; bytes that are
  all ASCII and hold neither ESC nor a tilde: \<open>ascii\<close> with confidence 1) and makes no
  guess elsewhere, and the character database on three blocks above Latin-1: Latin
  Extended-A, the Devanagari letters and signs, and the CJK unified ideographs.
\<close>

definition utf8_cont :: "nat \<Rightarrow> bool" where
  "utf8_cont b = (0x80 \<le> b \<and> b < 0xC0)"

fun utf8_decode :: "bytes \<Rightarrow> error + ustr" where
  "utf8_decode [] = Inr []"
| "utf8_decode (b0 # bs) =
     (if b0 < 0x80 then
        (case utf8_decode bs of Inl e \<Rightarrow> Inl e | Inr t \<Rightarrow> Inr (b0 # t))
      else if 0xC2 \<le> b0 \<and> b0 < 0xE0 then
        (case bs of
           b1 # r \<Rightarrow>
             if utf8_cont b1 then
               (case utf8_decode r of Inl e \<Rightarrow> Inl e
                | Inr t \<Rightarrow> Inr (((b0 - 0xC0) * 64 + (b1 - 0x80)) # t))
             else Inl UnicodeDecodeError
         | _ \<Rightarrow> Inl UnicodeDecodeError)
      else if 0xE0 \<le> b0 \<and> b0 < 0xF0 then
        (case bs of
           b1 # b2 # r \<Rightarrow>
             if utf8_cont b1 \<and> utf8_cont b2 \<and> (if b0 = 0xE0 then 0xA0 \<le> b1 else True) \<and>
                (if b0 = 0xED then b1 < 0xA0 else True) then
               (case utf8_decode r of Inl e \<Rightarrow> Inl e
                | Inr t \<Rightarrow> Inr (((b0 - 0xE0) * 4096 + (b1 - 0x80) * 64 + (b2 - 0x80)) # t))
             else Inl UnicodeDecodeError
         | _ \<Rightarrow> Inl UnicodeDecodeError)
      else if 0xF0 \<le> b0 \<and> b0 < 0xF5 then
        (case bs of
           b1 # b2 # b3 # r \<Rightarrow>
             if utf8_cont b1 \<and> utf8_cont b2 \<and> utf8_cont b3 \<and>
                (if b0 = 0xF0 then 0x90 \<le> b1 else True) \<and>
                (if b0 = 0xF4 then b1 < 0x90 else True) then
               (case utf8_decode r of Inl e \<Rightarrow> Inl e
                | Inr t \<Rightarrow>
                    Inr (((b0 - 0xF0) * 262144 + (b1 - 0x80) * 4096 + (b2 - 0x80) * 64 +
                          (b3 - 0x80)) # t))
             else Inl UnicodeDecodeError
         | _ \<Rightarrow> Inl UnicodeDecodeError)
      else Inl UnicodeDecodeError)"

fun utf16_units_le :: "bytes \<Rightarrow> error + nat list" where
  "utf16_units_le [] = Inr []"
| "utf16_units_le [b] = Inl UnicodeDecodeError"
| "utf16_units_le (b0 # b1 # bs) =
     (case utf16_units_le bs of Inl e \<Rightarrow> Inl e | Inr us \<Rightarrow> Inr ((b0 + 256 * b1) # us))"

fun utf16_units_be :: "bytes \<Rightarrow> error + nat list" where
  "utf16_units_be [] = Inr []"
| "utf16_units_be [b] = Inl UnicodeDecodeError"
| "utf16_units_be (b0 # b1 # bs) =
     (case utf16_units_be bs of Inl e \<Rightarrow> Inl e | Inr us \<Rightarrow> Inr ((256 * b0 + b1) # us))"

fun utf16_pairs :: "nat list \<Rightarrow> error + ustr" where
  "utf16_pairs [] = Inr []"
| "utf16_pairs (u # us) =
     (if 0xD800 \<le> u \<and> u < 0xDC00 then
        (case us of
           v # r \<Rightarrow>
             if 0xDC00 \<le> v \<and> v < 0xE000 then
               (case utf16_pairs r of Inl e \<Rightarrow> Inl e
                | Inr t \<Rightarrow> Inr ((0x10000 + (u - 0xD800) * 1024 + (v - 0xDC00)) # t))
             else Inl UnicodeDecodeError
         | [] \<Rightarrow> Inl UnicodeDecodeError)
      else if 0xDC00 \<le> u \<and> u < 0xE000 then Inl UnicodeDecodeError
      else (case utf16_pairs us of Inl e \<Rightarrow> Inl e | Inr t \<Rightarrow> Inr (u # t)))"

definition utf16_decode :: "bytes \<Rightarrow> error + ustr" where
  "utf16_decode bs =
     (case (if take 2 bs = [0xFF, 0xFE] then utf16_units_le (drop 2 bs)
            else if take 2 bs = [0xFE, 0xFF] then utf16_units_be (drop 2 bs)
            else utf16_units_le bs) of
        Inl e \<Rightarrow> Inl e
      | Inr us \<Rightarrow> utf16_pairs us)"

definition sample_decode :: "string \<Rightarrow> bytes \<Rightarrow> error + ustr" where
  "sample_decode encoding bs =
     (if encoding = ''ascii'' then
        (if list_all (\<lambda>b. b < 0x80) bs then Inr bs else Inl UnicodeDecodeError)
      else if encoding = ''utf-8'' then utf8_decode bs
      else if encoding = ''utf-16'' then utf16_decode bs
      else if encoding = ''iso-8859-1'' \<or> encoding = ''latin1'' \<or> encoding = ''latin_1''
        then Inr bs
      else Inl LookupError)"

text \<open>
  With \<open>errors='replace'\<close>: exact on what decodes strictly; elsewhere this runtime puts
  U+FFFD for every byte from 0x80 on (coarser than the interpreter, which no evaluation
  below relies on).
\<close>

definition sample_utf8_replace :: "bytes \<Rightarrow> ustr" where
  "sample_utf8_replace bs =
     (case utf8_decode bs of
        Inr t \<Rightarrow> t
      | Inl e \<Rightarrow> map (\<lambda>b. if b < 0x80 then b else 0xFFFD) bs)"

definition sample_decode_replace :: "string \<Rightarrow> bytes \<Rightarrow> error + ustr" where
  "sample_decode_replace encoding bs =
     (if encoding = ''ascii'' then Inr (map (\<lambda>b. if b < 0x80 then b else 0xFFFD) bs)
      else if encoding = ''iso-8859-1'' \<or> encoding = ''latin1'' \<or> encoding = ''latin_1''
        then Inr bs
      else Inl LookupError)"

definition sample_detect :: "bytes \<Rightarrow> string option \<times> rat" where
  "sample_detect bs =
     (if bs \<noteq> [] \<and> list_all (\<lambda>b. b < 0x80 \<and> b \<noteq> 0x1B \<and> b \<noteq> 0x7E) bs
      then (Some ''ascii'', 1) else (None, 0))"

definition sample_printable_hi :: "nat \<Rightarrow> bool" where
  "sample_printable_hi c =
     ((0x100 \<le> c \<and> c \<le> 0x17F) \<or> (0x901 \<le> c \<and> c \<le> 0x903) \<or> (0x905 \<le> c \<and> c \<le> 0x939) \<or>
      (0x93E \<le> c \<and> c \<le> 0x94D) \<or> (0x4E00 \<le> c \<and> c \<le> 0x9FA5))"

definition sample_alnum_hi :: "nat \<Rightarrow> bool" where
  "sample_alnum_hi c =
     ((0x100 \<le> c \<and> c \<le> 0x17F) \<or> (0x905 \<le> c \<and> c \<le> 0x939) \<or> (0x4E00 \<le> c \<and> c \<le> 0x9FA5))"

definition sample_runtime :: runtime where
  "sample_runtime =
     \<lparr> printable_hi = sample_printable_hi, alnum_hi = sample_alnum_hi,
       chardet_detect = sample_detect, codec_decode = sample_decode,
       codec_decode_replace = sample_decode_replace,
       utf8_decode_replace = sample_utf8_replace \<rparr>"

text \<open>
  Six letters \<open>a\<close>, twelve U+0001 and two U+0000: all ASCII, six of twenty characters
  printable.
\<close>

definition control_heavy_text :: ustr where
  "control_heavy_text =
     [0x61, 0x61, 0x61, 0x61, 0x61, 0x61, 1, 1, 1, 1, 1, 1, 1, 1, 1, 1, 1, 1, 0, 0]"

section \<open>Properties of the string primitives\<close>

lemma any_marker_in_Str:
  "any_marker_in markers (Str s) = Inr (list_ex (\<lambda>marker. contains marker s) markers)"
  by (induction markers) simp_all

lemma any_marker_in_Bytes: "any_marker_in (marker # markers) (Bytes b) = Inl TypeError"
  by simp

lemma decode_indic_text_Str [simp]:
  "decode_indic_text rt (Str text) = Inr (decode_str rt text)"
  by (simp add: decode_indic_text_def any_marker_in_Str)

lemma decode_indic_text_Bytes [simp]:
  "decode_indic_text rt (Bytes b) = Inl TypeError"
  by (simp add: decode_indic_text_def indic_markers_def)

lemma set_str_replace: "set (str_replace old new t) \<subseteq> set t \<union> set new"
proof (induction old new t rule: str_replace.induct)
  case (1 old new)
  then show ?case by (auto split: if_splits)
next
  case (2 old new c cs)
  have "set (drop (length old) (c # cs)) \<subseteq> set (c # cs)" by (rule set_drop_subset)
  with 2 show ?case by (auto split: if_splits)
qed

lemma str_replace_single_absent:
  "m \<notin> set new \<Longrightarrow> m \<notin> set (str_replace [m] new t)"
  by (induction t) auto

lemma contains_single: "contains [m] t = (m \<in> set t)"
  by (induction t) auto

lemma replace_all_keeps_absent:
  "m \<notin> set t \<Longrightarrow> \<forall>(old, new) \<in> set table. m \<notin> set new \<Longrightarrow> m \<notin> set (replace_all table t)"
  unfolding replace_all_def
proof (induction table arbitrary: t)
  case Nil then show ?case by simp
next
  case (Cons e table)
  obtain old new where e: "e = (old, new)" by (cases e)
  have "m \<notin> set (str_replace old new t)"
    using set_str_replace[of old new t] Cons.prems e by auto
  then show ?case using Cons e by simp
qed

lemma replace_all_removes:
  "([m], n0) \<in> set table \<Longrightarrow> \<forall>(old, new) \<in> set table. m \<notin> set new \<Longrightarrow> m \<notin> set (replace_all table t)"
proof (induction table arbitrary: t)
  case Nil then show ?case by simp
next
  case (Cons e table)
  obtain old new where e: "e = (old, new)" by (cases e)
  have step: "replace_all (e # table) t = replace_all table (str_replace old new t)"
    by (simp add: replace_all_def e)
  show ?case
  proof (cases "e = ([m], n0)")
    case True
    then have "m \<notin> set (str_replace old new t)"
      using Cons.prems(2) e str_replace_single_absent by auto
    then show ?thesis using replace_all_keeps_absent Cons.prems(2) step by simp
  next
    case False
    then show ?thesis using Cons step by simp
  qed
qed

section \<open>Legacy script repair: properties\<close>

text \<open>The table as \<open>items()\<close> yields it: 59 keys, every duplicate folded into its first place.\<close>

lemma replacements_items:
  "replacements =
    [([0x28, 0x52, 0x29], [0x930]), ([0x2B, 0x2F, 0x2D], [0x932]),
     ([0xC9], [0x93E]), ([0xE8], [0x948]), ([0xFA], [0x930]), ([0xF9], [0x926]),
     ([0xFE], [0x939]), ([0xF2], [0x915]), ([0xE4], [0x947]), ([0xE6], [0x94B]),
     ([0xCE], [0x93F]), ([0xF5], [0x91F]), ([0xA8], [0x92E]), ([0xBD], [0x939]),
     ([0xCA], [0x93F]), ([0xBA], [0x938]), ([0xC6], [0x902]), ([0xC7], [0x91A]),
     ([0xAA], [0x92F]), ([0xA6], [0x92D]), ([0x50], [0x936]), ([0xFF], [0x939]),
     ([0xD2], [0x940]), ([0xD3], [0x940]), ([0xD4], [0x940]), ([0xD5], [0x940]),
     ([0xD6], [0x940]), ([0xD7], [0x940]), ([0xD8], [0x940]), ([0xD9], [0x940]),
     ([0xDA], [0x940]), ([0xDB], [0x940]), ([0xDC], [0x940]), ([0xDD], [0x940]),
     ([0xDE], [0x940]), ([0xDF], [0x940]), ([0xE0], [0x940]), ([0xE1], [0x940]),
     ([0xE2], [0x940]), ([0xE3], [0x940]), ([0xE5], [0x947]), ([0xE7], [0x94B]),
     ([0xE9], [0x948]), ([0xEA], [0x948]), ([0xEB], [0x948]), ([0xEC], [0x948]),
     ([0xED], [0x948]), ([0xEE], [0x948]), ([0xEF], [0x948]), ([0xF0], [0x948]),
     ([0xF1], [0x948]), ([0xF3], [0x915]), ([0xF4], [0x915]), ([0xF6], [0x91F]),
     ([0xF7], [0x91F]), ([0xF8], [0x91F]), ([0xFB], [0x930]), ([0xFC], [0x930]),
     ([0xFD], [0x930])]"
  by (simp add: replacements_def dict_literal_def replacements_literal_def)

lemma replacements_targets:
  "list_all (\<lambda>(old, new). list_all (\<lambda>c. 0x900 \<le> c) new) replacements"
  by (simp add: replacements_items)

lemma indic_markers_keys:
  "list_all (\<lambda>marker. case marker of [m] \<Rightarrow> m < 0x900 \<and> list_ex (\<lambda>(old, new). old = [m]) replacements | _ \<Rightarrow> False) indic_markers"
  by (simp add: replacements_items indic_markers_def)

lemma marker_props:
  assumes "marker \<in> set indic_markers"
  shows "\<exists>m n0. marker = [m] \<and> m < 0x900 \<and> ([m], n0) \<in> set replacements"
proof -
  from assms indic_markers_keys
  have "case marker of [m] \<Rightarrow> m < 0x900 \<and> list_ex (\<lambda>(old, new). old = [m]) replacements | _ \<Rightarrow> False"
    by (simp add: list_all_iff)
  then show ?thesis
    by (auto simp: list_ex_iff split: list.splits)
qed

lemma markers_removed: "\<not> is_indic (replace_all replacements t)"
proof
  assume "is_indic (replace_all replacements t)"
  then obtain marker where mk: "marker \<in> set indic_markers"
    and c: "contains marker (replace_all replacements t)"
    by (auto simp: is_indic_def list_ex_iff)
  from marker_props[OF mk] obtain m n0 where m: "marker = [m]" "m < 0x900"
    "([m], n0) \<in> set replacements" by blast
  have "\<forall>(old, new) \<in> set replacements. m \<notin> set new"
    using replacements_targets m(2) by (fastforce simp: list_all_iff)
  from replace_all_removes[OF m(3) this] c m(1) show False
    by (simp add: contains_single)
qed

text \<open>
  C3. A text with none of the marker characters passes through the repair step unchanged:
  the substitution table is applied only under a positive marker check.
\<close>

theorem repair_identity_without_markers:
  "\<not> is_indic text \<Longrightarrow> repair text = text"
  by (simp add: repair_def)

theorem repair_identity_without_markers_witness:
  "\<not> is_indic (lit ''Hello World'') \<and> repair (lit ''Hello World'') = lit ''Hello World''"
proof -
  have h: "\<not> is_indic (lit ''Hello World'')"
    by (simp add: is_indic_def indic_markers_def lit_def)
  from h repair_identity_without_markers [OF h] show ?thesis by simp
qed

text \<open>
  One \<open>replace\<close> with a one-character key is a map on characters; so is the loop over a
  table whose keys are single characters below a bound that no character of a value is
  below, since no value is touched by a later entry.
\<close>

lemma str_replace_single:
  "str_replace [k] v t = concat (map (\<lambda>c. if c = k then v else [c]) t)"
  by (induction t) auto

lemma substitute_above:
  "list_all (\<lambda>(old, new). (case old of [k] \<Rightarrow> k < b | _ \<Rightarrow> False) \<and> list_all (\<lambda>c. b \<le> c) new) table \<Longrightarrow>
   b \<le> c \<Longrightarrow> substitute table c = [c]"
  by (induction table) (auto simp: substitute_def split: list.splits)

lemma replace_all_singles:
  "list_all (\<lambda>(old, new). (case old of [k] \<Rightarrow> k < b | _ \<Rightarrow> False) \<and> list_all (\<lambda>c. b \<le> c) new) table \<Longrightarrow>
   replace_all table t = concat (map (substitute table) t)"
proof (induction table arbitrary: t)
  case Nil
  then show ?case by (simp add: replace_all_def substitute_def)
next
  case (Cons e table)
  from Cons.prems obtain k v where e: "e = ([k], v)" and k: "k < b" and v: "list_all (\<lambda>c. b \<le> c) v"
    and rest: "list_all (\<lambda>(old, new). (case old of [k] \<Rightarrow> k < b | _ \<Rightarrow> False) \<and> list_all (\<lambda>c. b \<le> c) new) table"
    by (cases e) (auto split: list.splits)
  have keep: "concat (map (substitute table) v) = v"
    using v by (induction v) (simp_all add: substitute_above [OF rest])
  have "replace_all (e # table) t = replace_all table (str_replace [k] v t)"
    by (simp add: replace_all_def e)
  also have "\<dots> = concat (map (substitute table) (concat (map (\<lambda>c. if c = k then v else [c]) t)))"
    by (simp add: Cons.IH [OF rest] str_replace_single)
  also have "\<dots> = concat (map (substitute (e # table)) t)"
  proof -
    have hd: "substitute (e # table) c = (if c = k then v else substitute table c)" for c
      by (simp add: e substitute_def)
    show ?thesis by (induction t) (simp_all add: keep hd)
  qed
  finally show ?case .
qed

text \<open>
  The table of the repair step: its first two keys, \<open>(R)\<close> and \<open>+/-\<close>, are replaced as
  substrings; the other 57 keys are single characters below U+0900 and every value is a
  character from U+0900 on.
\<close>

lemma replace_all_replacements:
  "replace_all replacements t =
     concat (map (substitute replacements)
       (str_replace [0x2B, 0x2F, 0x2D] [0x932] (str_replace [0x28, 0x52, 0x29] [0x930] t)))"
proof -
  define singles where "singles = drop 2 replacements"
  have r: "replacements = ([0x28, 0x52, 0x29], [0x930]) # ([0x2B, 0x2F, 0x2D], [0x932]) # singles"
    by (simp add: singles_def replacements_items)
  have s: "list_all (\<lambda>(old, new). (case old of [k] \<Rightarrow> k < 0x900 | _ \<Rightarrow> False) \<and> list_all (\<lambda>c. 0x900 \<le> c) new) singles"
    by (simp add: singles_def replacements_items)
  have sub: "substitute replacements = substitute singles"
    by (rule ext) (simp add: r substitute_def)
  have "replace_all replacements t =
      replace_all singles (str_replace [0x2B, 0x2F, 0x2D] [0x932] (str_replace [0x28, 0x52, 0x29] [0x930] t))"
    by (simp add: r replace_all_def)
  then show ?thesis by (simp add: replace_all_singles [OF s] sub)
qed

text \<open>
  C7. Not every input has its mapped characters replaced: the table is applied only under
  a positive marker check. \<open>P\<close> is a key of the table, with value U+0936, and holds no
  marker: the repair step returns it unchanged.
\<close>

theorem repair_keeps_mapped_character:
  "substitute replacements 0x50 = [0x936] \<and> \<not> is_indic [0x50] \<and> repair [0x50] = [0x50] \<and>
   repair [0x50] \<noteq> concat (map (substitute replacements) [0x50])"
proof -
  have 1: "substitute replacements 0x50 = [0x936]"
    by (simp add: substitute_def replacements_items)
  have 2: "\<not> is_indic [0x50]"
    by (simp add: is_indic_def indic_markers_def)
  from 1 2 show ?thesis by (simp add: repair_def)
qed

text \<open>
  C7, as amended. The repair step is idempotent on every string: a second application
  changes nothing, because the first leaves no marker character behind (every marker is a
  key of the table, and no character of a replacement value is a key or a marker). One
  application, on a text with a marker, replaces the substrings \<open>(R)\<close> and \<open>+/-\<close> and
  then every character that is a key of the table by its value, and leaves every other
  character as it is; a text with no marker is returned unchanged. On a text with the
  marker U+00C9 next to another mapped character, both are replaced and the unmapped
  characters around them stay.
\<close>

theorem repair_idempotent_substitution:
  "repair (repair text) = repair text \<and> \<not> is_indic (repair text) \<and>
   repair text =
     (if is_indic text
      then concat (map (substitute replacements)
             (str_replace [0x2B, 0x2F, 0x2D] [0x932] (str_replace [0x28, 0x52, 0x29] [0x930] text)))
      else text) \<and>
   list_all (\<lambda>(old, new). list_all (\<lambda>c. substitute replacements c = [c]) new) replacements \<and>
   repair [0x41, 0xC9, 0xFA, 0x7A] = [0x41, 0x93E, 0x930, 0x7A]"
proof -
  have 1: "\<not> is_indic (repair text)" by (simp add: repair_def markers_removed)
  have 2: "repair (repair text) = repair text" by (simp add: repair_def markers_removed)
  have 3: "is_indic [0x41, 0xC9, 0xFA, 0x7A]"
    by (simp add: is_indic_def indic_markers_def)
  have 4: "replace_all replacements [0x41, 0xC9, 0xFA, 0x7A] = [0x41, 0x93E, 0x930, 0x7A]"
    by (simp add: replace_all_def replacements_items)
  have 5: "repair [0x41, 0xC9, 0xFA, 0x7A] = [0x41, 0x93E, 0x930, 0x7A]"
    using 3 4 by (simp add: repair_def)
  have 6: "repair text =
     (if is_indic text
      then concat (map (substitute replacements)
             (str_replace [0x2B, 0x2F, 0x2D] [0x932] (str_replace [0x28, 0x52, 0x29] [0x930] text)))
      else text)"
    by (simp add: repair_def replace_all_replacements)
  have 7: "list_all (\<lambda>(old, new). list_all (\<lambda>c. substitute replacements c = [c]) new) replacements"
    by (simp add: replacements_items substitute_def)
  from 1 2 5 6 7 show ?thesis by blast
qed

section \<open>The Latin-1 sanitizer: properties\<close>

lemma latin1_replacements_ascii:
  "list_all (\<lambda>(old, new). list_all (\<lambda>c. c < 128) new) latin1_replacements"
  by (simp add: latin1_replacements_def dict_literal_def latin1_replacements_literal_def lit_def)

text \<open>
  C4. The output of the sanitizer holds no character from U+0100 on: on a string input the
  result always exists, whatever the input every character of a result is below 256, and
  every replacement value of the table is ASCII.
\<close>

theorem sanitize_output_below_256:
  "(\<exists>out. sanitize_clean_text rt (Str text) = Inr out) \<and>
   (\<forall>out. sanitize_clean_text rt v = Inr out \<longrightarrow> (\<forall>c \<in> set out. c < 256)) \<and>
   (\<forall>(old, new) \<in> set latin1_replacements. \<forall>c \<in> set new. c < 128)"
proof -
  have 1: "\<exists>out. sanitize_clean_text rt (Str text) = Inr out"
    by (simp add: sanitize_clean_text_def)
  have 2: "\<forall>out. sanitize_clean_text rt v = Inr out \<longrightarrow> (\<forall>c \<in> set out. c < 256)"
    by (auto simp: sanitize_clean_text_def split: sum.splits)
  have 3: "\<forall>(old, new) \<in> set latin1_replacements. \<forall>c \<in> set new. c < 128"
    using latin1_replacements_ascii by (auto simp: list_all_iff)
  from 1 2 3 show ?thesis by blast
qed

theorem sanitize_output_below_256_witness:
  "sanitize_clean_text sample_runtime (Str [0x63, 0x61, 0x66, 0xE9, 0x20AC, 0x4E00]) =
     Inr [0x63, 0x61, 0x66, 0xE9, 0x45, 0x55, 0x52] \<and>
   list_all (\<lambda>c. c < 256) [0x63, 0x61, 0x66, 0xE9, 0x45, 0x55, 0x52 :: nat]"
proof -
  let ?v = "Str [0x63, 0x61, 0x66, 0xE9, 0x20AC, 0x4E00]"
  have e: "sanitize_clean_text sample_runtime ?v = Inr [0x63, 0x61, 0x66, 0xE9, 0x45, 0x55, 0x52]"
    by (simp add: sanitize_clean_text_def replace_all_def latin1_replacements_def
        dict_literal_def latin1_replacements_literal_def lit_def)
  from sanitize_output_below_256 [of sample_runtime "[]" ?v] e
  have "\<forall>c \<in> set [0x63, 0x61, 0x66, 0xE9, 0x45, 0x55, 0x52 :: nat]. c < 256" by blast
  with e show ?thesis by (simp only: list_all_iff simp_thms)
qed

section \<open>\<open>translate_to_english\<close>: properties\<close>

text \<open>
  C9. The function always returns a value; when the model call raises, that value is the
  input text, unchanged.
\<close>

theorem translate_failure_returns_input:
  "(\<exists>r. snd (translate_to_english model text) = Inr r) \<and>
   (\<forall>e. model (translate_prompt text) = Inl e \<longrightarrow>
        snd (translate_to_english model text) = Inr text)"
  by (auto simp: translate_to_english_def split: sum.splits exc.splits)

theorem translate_failure_returns_input_witness:
  "snd (translate_to_english (\<lambda>prompt. Inl (Exception (lit ''quota''))) (lit ''namaste'')) =
     Inr (lit ''namaste'')"
  using translate_failure_returns_input
    [of "\<lambda>prompt. Inl (Exception (lit ''quota''))" "lit ''namaste''"]
  by simp

section \<open>Whitespace stripping and the generic cleaner: properties\<close>

lemma set_strip: "set (strip t) \<subseteq> set t"
proof -
  have "set (strip t) \<subseteq> set (dropWhile is_space t)"
    unfolding strip_def using set_dropWhileD by fastforce
  also have "\<dots> \<subseteq> set t" using set_dropWhileD by fastforce
  finally show ?thesis .
qed

lemma last_dropWhile_nonempty: "dropWhile P xs \<noteq> [] \<Longrightarrow> last (dropWhile P xs) = last xs"
  by (induction xs) (auto split: if_splits)

lemma strip_last: "strip t \<noteq> [] \<Longrightarrow> \<not> is_space (last (strip t))"
  unfolding strip_def
  by (simp add: last_rev hd_dropWhile)

lemma strip_hd: "strip t \<noteq> [] \<Longrightarrow> \<not> is_space (hd (strip t))"
proof -
  assume ne: "strip t \<noteq> []"
  let ?d = "dropWhile is_space t"
  from ne have a: "dropWhile is_space (rev ?d) \<noteq> []" by (simp add: strip_def)
  then have "rev ?d \<noteq> []" by (metis dropWhile.simps(1))
  then have d: "?d \<noteq> []" by simp
  have "hd (strip t) = last (dropWhile is_space (rev ?d))"
    using a by (simp add: strip_def hd_rev)
  also have "\<dots> = last (rev ?d)" using a by (rule last_dropWhile_nonempty)
  also have "\<dots> = hd ?d" using d by (simp add: last_rev)
  finally show ?thesis using d hd_dropWhile[of is_space t] by simp
qed

lemma prefix_strip: "prefix (strip t) (dropWhile is_space t)"
proof -
  have "suffix (dropWhile is_space (rev (dropWhile is_space t))) (rev (dropWhile is_space t))"
    by (rule suffix_dropWhile)
  then show ?thesis by (simp add: suffix_to_prefix strip_def)
qed

lemma subseq_strip: "subseq (strip t) t"
proof -
  have "subseq (strip t) (dropWhile is_space t)"
    using prefix_strip by (rule prefix_imp_subseq)
  moreover have "subseq (dropWhile is_space t) t"
    using suffix_dropWhile by (rule suffix_imp_subseq)
  ultimately show ?thesis by (rule subseq_order.order_trans)
qed

lemma strip_unchanged:
  "t = [] \<or> (\<not> is_space (hd t) \<and> \<not> is_space (last t)) \<Longrightarrow> strip t = t"
proof (cases t)
  case Nil then show ?thesis by (simp add: strip_def)
next
  case (Cons a list)
  assume "t = [] \<or> (\<not> is_space (hd t) \<and> \<not> is_space (last t))"
  with Cons have h: "\<not> is_space (hd t)" "\<not> is_space (last t)" by auto
  have 1: "dropWhile is_space t = t" using h(1) Cons by simp
  obtain x xs where r: "rev t = x # xs" using Cons by (cases "rev t") auto
  have "hd (rev t) = last t" using Cons by (simp add: hd_rev)
  then have x: "x = last t" by (simp only: r list.sel)
  have 2: "dropWhile is_space (rev t) = rev t"
    unfolding r using h(2) x by simp
  show ?thesis by (simp add: strip_def 1 2)
qed

lemma strip_idem: "strip (strip t) = strip t"
  using strip_unchanged[of "strip t"] strip_hd[of t] strip_last[of t] by blast

lemma clean_text_chars:
  "c \<in> set (clean_text rt t) \<Longrightarrow> clean_keeps rt c"
  using set_strip[of "filter (clean_keeps rt) (collapse_ws t)"]
  by (auto simp: clean_text_def Let_def)

lemma clean_text_subseq: "subseq (clean_text rt t) (collapse_ws t)"
proof -
  have "subseq (filter (clean_keeps rt) (collapse_ws t)) (collapse_ws t)" by simp
  then show ?thesis
    unfolding clean_text_def Let_def
    using subseq_strip subseq_order.order_trans by blast
qed

lemma not_kept:
  "\<not> clean_keeps rt 0x22" "\<not> clean_keeps rt 0x27" "\<not> clean_keeps rt 0xA9"
  "\<not> clean_keeps rt 0x24" "\<not> clean_keeps rt 0xA3" "\<not> clean_keeps rt 0xA5"
  by (simp_all add: clean_keeps_def is_word_def is_alnum_latin1_def is_space_def
      clean_punctuation_def lit_def)

text \<open>
  C10. The generic cleaner returns a trimmed string whose characters are word characters,
  whitespace or one of the fourteen listed punctuation marks; what it removes is deleted,
  not mapped (the output is a subsequence of the whitespace-collapsed input). Quotation
  marks, the copyright sign and the currency signs of Latin-1 never survive; the copyright
  sign \<open>normalize_text\<close> writes for \<open>(c)\<close> is deleted in turn.
\<close>

theorem clean_text_character_classes:
  "(\<forall>c \<in> set (clean_text rt text). is_word rt c \<or> is_space c \<or> c \<in> set clean_punctuation) \<and>
   strip (clean_text rt text) = clean_text rt text \<and>
   (clean_text rt text = [] \<or>
      (\<not> is_space (hd (clean_text rt text)) \<and> \<not> is_space (last (clean_text rt text)))) \<and>
   subseq (clean_text rt text) (collapse_ws text) \<and>
   (\<forall>c \<in> set [0x22, 0x27, 0xA9, 0x24, 0xA3, 0xA5]. c \<notin> set (clean_text rt text)) \<and>
   clean_text rt (normalize_text rt (lit ''(c)'')) = []"
proof -
  have a: "\<forall>c \<in> set (clean_text rt text). is_word rt c \<or> is_space c \<or> c \<in> set clean_punctuation"
    using clean_text_chars[of _ rt "text"] by (auto simp: clean_keeps_def)
  have b: "strip (clean_text rt text) = clean_text rt text"
    by (simp add: clean_text_def Let_def strip_idem)
  have c: "clean_text rt text = [] \<or>
      (\<not> is_space (hd (clean_text rt text)) \<and> \<not> is_space (last (clean_text rt text)))"
    unfolding clean_text_def Let_def using strip_hd strip_last by blast
  have d: "subseq (clean_text rt text) (collapse_ws text)" by (rule clean_text_subseq)
  have e: "\<forall>c \<in> set [0x22, 0x27, 0xA9, 0x24, 0xA3, 0xA5]. c \<notin> set (clean_text rt text)"
    using clean_text_chars[of _ rt "text"] not_kept[of rt] by auto
  have n: "normalize_text rt (lit ''(c)'') = [0xA9]"
    by (simp add: normalize_text_def Let_def lit_def isprintable_def is_space_def strip_def)
  have f: "clean_text rt (normalize_text rt (lit ''(c)'')) = []"
    unfolding n using not_kept(3)[of rt]
    by (simp add: clean_text_def Let_def is_space_def strip_def)
  from a b c d e f show ?thesis by blast
qed

theorem clean_text_character_classes_witness:
  "clean_text sample_runtime (lit ''  Hi, (c) 5  '') = lit ''Hi, (c) 5'' \<and>
   list_all (\<lambda>c. is_word sample_runtime c \<or> is_space c \<or> c \<in> set clean_punctuation)
     (lit ''Hi, (c) 5'')"
proof -
  have e: "clean_text sample_runtime (lit ''  Hi, (c) 5  '') = lit ''Hi, (c) 5''"
    by (simp add: clean_text_def Let_def lit_def clean_keeps_def is_word_def
        is_alnum_latin1_def is_space_def clean_punctuation_def strip_def)
  from clean_text_character_classes [of sample_runtime "lit ''  Hi, (c) 5  ''"]
  have "\<forall>c \<in> set (clean_text sample_runtime (lit ''  Hi, (c) 5  '')).
          is_word sample_runtime c \<or> is_space c \<or> c \<in> set clean_punctuation" by blast
  then have "list_all (\<lambda>c. is_word sample_runtime c \<or> is_space c \<or> c \<in> set clean_punctuation)
     (lit ''Hi, (c) 5'')" by (simp only: e list_all_iff)
  with e show ?thesis by (simp only: simp_thms)
qed

section \<open>\<open>normalize_text\<close>: properties\<close>

lemma collapse_ws_chars:
  "c \<in> set (collapse_ws t) \<Longrightarrow> c = 0x20 \<or> (c \<in> set t \<and> \<not> is_space c)"
proof (induction t rule: collapse_ws.induct)
  case 1 then show ?case by simp
next
  case (2 a cs)
  show ?case
  proof (cases "is_space a")
    case True
    with 2 show ?thesis using set_dropWhileD[of _ is_space cs] by auto
  next
    case False
    with 2 show ?thesis by auto
  qed
qed

lemma collapse_ws_hd:
  "t \<noteq> [] \<Longrightarrow> \<not> is_space (hd t) \<Longrightarrow> collapse_ws t \<noteq> [] \<and> hd (collapse_ws t) = hd t"
  by (cases t) auto

lemma ws_normal_Cons_space:
  "ws_normal r \<Longrightarrow> (r \<noteq> [] \<Longrightarrow> \<not> is_space (hd r)) \<Longrightarrow> ws_normal (0x20 # r)"
  by (cases r) auto

lemma ws_normal_Cons_nonspace:
  "ws_normal r \<Longrightarrow> \<not> is_space c \<Longrightarrow> ws_normal (c # r)"
  by (cases r) auto

lemma ws_normal_collapse_ws: "ws_normal (collapse_ws t)"
proof (induction t rule: collapse_ws.induct)
  case 1 then show ?case by simp
next
  case (2 c cs)
  show ?case
  proof (cases "is_space c")
    case True
    let ?r = "dropWhile is_space cs"
    have ih: "ws_normal (collapse_ws ?r)" using 2 True by simp
    have "collapse_ws ?r \<noteq> [] \<Longrightarrow> \<not> is_space (hd (collapse_ws ?r))"
    proof -
      assume ne: "collapse_ws ?r \<noteq> []"
      then have r: "?r \<noteq> []" by (metis collapse_ws.simps(1))
      then have "\<not> is_space (hd ?r)" by (rule hd_dropWhile)
      with r collapse_ws_hd[of ?r] show ?thesis by simp
    qed
    with ih have "ws_normal (0x20 # collapse_ws ?r)" by (rule ws_normal_Cons_space)
    with True show ?thesis by simp
  next
    case False
    with 2 have "ws_normal (collapse_ws cs)" by simp
    then have "ws_normal (c # collapse_ws cs)" using False by (rule ws_normal_Cons_nonspace)
    with False show ?thesis by simp
  qed
qed

lemma collapse_ws_fixed: "ws_normal t \<Longrightarrow> collapse_ws t = t"
  by (induction t rule: ws_normal.induct) (auto split: if_splits)

lemma ws_normal_append: "ws_normal (xs @ ys) \<Longrightarrow> ws_normal xs \<and> ws_normal ys"
proof (induction xs rule: ws_normal.induct)
  case 1 then show ?case by simp
next
  case (2 c) then show ?case by (cases ys) (auto split: if_splits)
next
  case (3 c d cs) then show ?case by (auto split: if_splits)
qed

lemma ws_normal_strip: "ws_normal t \<Longrightarrow> ws_normal (strip t)"
proof -
  assume n: "ws_normal t"
  obtain a where a: "t = a @ dropWhile is_space t"
    using suffix_dropWhile[of is_space t] by (auto simp: suffix_def)
  obtain b where b: "dropWhile is_space t = strip t @ b"
    using prefix_strip[of t] by (auto simp: prefix_def)
  from n a have "ws_normal (dropWhile is_space t)" using ws_normal_append by metis
  with b show ?thesis using ws_normal_append by metis
qed

lemma sub_newlines_no_newline: "0x0A \<notin> set t \<Longrightarrow> sub_newlines t = t"
  by (induction t) (auto simp: Let_def)

lemma str_replace_absent: "old \<noteq> [] \<Longrightarrow> \<not> contains old t \<Longrightarrow> str_replace old new t = t"
  by (induction t) auto

lemma str_replace_chars:
  "c \<in> set (str_replace old new t) \<Longrightarrow> c \<in> set t \<or> c \<in> set new"
  using set_str_replace[of old new t] by auto

lemma normalize_text_ws_normal_strip:
  "\<exists>z. normalize_text rt x = strip (collapse_ws z) \<and> (\<forall>c \<in> set z. isprintable rt c)"
proof -
  define t1 where "t1 = filter (\<lambda>char. isprintable rt char \<or> char \<in> set [0x0A, 0x09]) x"
  define t2 where "t2 = collapse_ws t1"
  define t3 where "t3 = str_replace [0xE2, 0x20AC, 0x2122] [0x27] t2"
  define t4 where "t4 = str_replace [0xE2, 0x20AC, 0x153] [0x22] t3"
  define t5 where "t5 = str_replace [0xE2, 0x20AC] [0x22] t4"
  define t6 where "t6 = str_replace [0xC2] [] t5"
  define t7 where "t7 = str_replace [0x64, 0x65, 0x67, 0xFC] [0x64, 0x65, 0x67] t6"
  define t8 where "t8 = str_replace [0x28, 0x63, 0x29] [0xA9] t7"
  have n: "normalize_text rt x = strip (sub_newlines (collapse_ws t8))"
    by (simp add: normalize_text_def Let_def t1_def t2_def t3_def t4_def t5_def t6_def t7_def t8_def)
  have sp: "is_space 0x0A" "is_space 0x09" by (simp_all add: is_space_def)
  have p: "isprintable rt 0x20" "isprintable rt 0x27" "isprintable rt 0x22" "isprintable rt 0xA9"
    "isprintable rt 0x64" "isprintable rt 0x65" "isprintable rt 0x67"
    by (simp_all add: isprintable_def)
  have p2: "\<forall>c \<in> set t2. isprintable rt c"
  proof
    fix c assume "c \<in> set t2"
    then have "c = 0x20 \<or> (c \<in> set t1 \<and> \<not> is_space c)"
      unfolding t2_def by (rule collapse_ws_chars)
    then show "isprintable rt c" using p(1) sp by (auto simp: t1_def)
  qed
  have p3: "\<forall>c \<in> set t3. isprintable rt c"
    using p2 p str_replace_chars[of _ "[0xE2, 0x20AC, 0x2122]" "[0x27]" t2] by (auto simp: t3_def)
  have p4: "\<forall>c \<in> set t4. isprintable rt c"
    using p3 p str_replace_chars[of _ "[0xE2, 0x20AC, 0x153]" "[0x22]" t3] by (auto simp: t4_def)
  have p5: "\<forall>c \<in> set t5. isprintable rt c"
    using p4 p str_replace_chars[of _ "[0xE2, 0x20AC]" "[0x22]" t4] by (auto simp: t5_def)
  have p6: "\<forall>c \<in> set t6. isprintable rt c"
    using p5 p str_replace_chars[of _ "[0xC2]" "[]" t5] by (auto simp: t6_def)
  have p7: "\<forall>c \<in> set t7. isprintable rt c"
    using p6 p str_replace_chars[of _ "[0x64, 0x65, 0x67, 0xFC]" "[0x64, 0x65, 0x67]" t6]
    by (auto simp: t7_def)
  have p8: "\<forall>c \<in> set t8. isprintable rt c"
    using p7 p str_replace_chars[of _ "[0x28, 0x63, 0x29]" "[0xA9]" t7] by (auto simp: t8_def)
  have "0x0A \<notin> set (collapse_ws t8)"
    using collapse_ws_chars[of "0x0A" t8] sp by auto
  then have "sub_newlines (collapse_ws t8) = collapse_ws t8" by (rule sub_newlines_no_newline)
  with n p8 show ?thesis by auto
qed

lemma normalize_text_no_newline: "0x0A \<notin> set (normalize_text rt x)"
proof -
  obtain z where z: "normalize_text rt x = strip (collapse_ws z)"
    using normalize_text_ws_normal_strip by blast
  have "is_space 0x0A" by (simp add: is_space_def)
  then have "0x0A \<notin> set (collapse_ws z)" using collapse_ws_chars[of "0x0A" z] by auto
  then show ?thesis using set_strip[of "collapse_ws z"] z by auto
qed

text \<open>
  C6. Two consecutive blank lines do not come out as one blank line: the first
  \<open>re.sub(r'\s+', ' ', text)\<close> has already turned every newline into a space, so the later
  \<open>re.sub(r'\n\s*\n', '\n\n', text)\<close> finds nothing and no output holds a newline at all.
  Three leading spaces are removed by the final trim.
\<close>

theorem normalize_text_blank_lines:
  "normalize_text rt (lit ''a'' @ [0x0A, 0x0A, 0x0A] @ lit ''b'') = lit ''a b'' \<and>
   0x0A \<notin> set (normalize_text rt text) \<and>
   normalize_text rt (lit ''   a'') = lit ''a''"
proof -
  have 1: "normalize_text rt (lit ''a'' @ [0x0A, 0x0A, 0x0A] @ lit ''b'') = lit ''a b''"
    by (simp add: normalize_text_def Let_def lit_def isprintable_def is_space_def strip_def)
  have 2: "normalize_text rt (lit ''   a'') = lit ''a''"
    by (simp add: normalize_text_def Let_def lit_def isprintable_def is_space_def strip_def)
  from 1 2 normalize_text_no_newline show ?thesis by blast
qed

text \<open>
  C2. \<open>normalize_text\<close> is not idempotent: the replacements are applied once, in sequence,
  and the result of one can complete a pattern. On \<open>deg\<close> followed by two U+00FC the first
  pass removes one of them and the second pass the other.
\<close>

theorem normalize_text_not_idempotent:
  "normalize_text sample_runtime [0x64, 0x65, 0x67, 0xFC, 0xFC] = [0x64, 0x65, 0x67, 0xFC] \<and>
   normalize_text sample_runtime (normalize_text sample_runtime [0x64, 0x65, 0x67, 0xFC, 0xFC]) =
     [0x64, 0x65, 0x67] \<and>
   normalize_text sample_runtime (normalize_text sample_runtime [0x64, 0x65, 0x67, 0xFC, 0xFC]) \<noteq>
     normalize_text sample_runtime [0x64, 0x65, 0x67, 0xFC, 0xFC]"
proof -
  have 1: "normalize_text sample_runtime [0x64, 0x65, 0x67, 0xFC, 0xFC] = [0x64, 0x65, 0x67, 0xFC]"
    by (simp add: normalize_text_def Let_def isprintable_def is_space_def strip_def)
  have 2: "normalize_text sample_runtime [0x64, 0x65, 0x67, 0xFC] = [0x64, 0x65, 0x67]"
    by (simp add: normalize_text_def Let_def isprintable_def is_space_def strip_def)
  show ?thesis by (simp add: 1 2)
qed

text \<open>
  C2, as amended. When the output of \<open>normalize_text\<close> holds none of the six patterns the
  function rewrites, a second application leaves it unchanged.
\<close>

theorem normalize_text_idempotent_without_artifacts:
  assumes "list_all (\<lambda>p. \<not> contains p (normalize_text rt x)) artifact_patterns"
  shows "normalize_text rt (normalize_text rt x) = normalize_text rt x"
proof -
  let ?y = "normalize_text rt x"
  obtain z where z: "?y = strip (collapse_ws z)" and pz: "\<forall>c \<in> set z. isprintable rt c"
    using normalize_text_ws_normal_strip by blast
  have sp: "isprintable rt 0x20" by (simp add: isprintable_def)
  have py: "\<forall>c \<in> set ?y. isprintable rt c"
  proof
    fix c assume "c \<in> set ?y"
    then have "c \<in> set (collapse_ws z)" using set_strip[of "collapse_ws z"] z by auto
    then have "c = 0x20 \<or> (c \<in> set z \<and> \<not> is_space c)" by (rule collapse_ws_chars)
    then show "isprintable rt c" using sp pz by auto
  qed
  have f: "filter (\<lambda>char. isprintable rt char \<or> char \<in> set [0x0A, 0x09]) ?y = ?y"
    using py by (simp add: filter_id_conv)
  have wn: "ws_normal ?y" unfolding z by (rule ws_normal_strip) (rule ws_normal_collapse_ws)
  then have c: "collapse_ws ?y = ?y" by (rule collapse_ws_fixed)
  have r: "str_replace [0xE2, 0x20AC, 0x2122] [0x27] ?y = ?y"
    "str_replace [0xE2, 0x20AC, 0x153] [0x22] ?y = ?y"
    "str_replace [0xE2, 0x20AC] [0x22] ?y = ?y"
    "str_replace [0xC2] [] ?y = ?y"
    "str_replace [0x64, 0x65, 0x67, 0xFC] [0x64, 0x65, 0x67] ?y = ?y"
    "str_replace [0x28, 0x63, 0x29] [0xA9] ?y = ?y"
    using assms by (simp_all add: artifact_patterns_def str_replace_absent)
  have nl: "sub_newlines ?y = ?y"
    using normalize_text_no_newline by (rule sub_newlines_no_newline)
  have st: "strip ?y = ?y" unfolding z by (rule strip_idem)
  have "normalize_text rt ?y = strip (sub_newlines (collapse_ws
      (str_replace [0x28, 0x63, 0x29] [0xA9] (str_replace [0x64, 0x65, 0x67, 0xFC] [0x64, 0x65, 0x67]
      (str_replace [0xC2] [] (str_replace [0xE2, 0x20AC] [0x22] (str_replace [0xE2, 0x20AC, 0x153] [0x22]
      (str_replace [0xE2, 0x20AC, 0x2122] [0x27] (collapse_ws
        (filter (\<lambda>char. isprintable rt char \<or> char \<in> set [0x0A, 0x09]) ?y))))))))))"
    by (simp only: normalize_text_def[of rt ?y] Let_def)
  also have "\<dots> = ?y" by (simp only: f c r nl st)
  finally show ?thesis .
qed

theorem normalize_text_idempotent_without_artifacts_witness:
  "list_all (\<lambda>p. \<not> contains p (normalize_text sample_runtime (lit ''  Hello   World '')))
     artifact_patterns \<and>
   normalize_text sample_runtime (lit ''  Hello   World '') = lit ''Hello World'' \<and>
   normalize_text sample_runtime (normalize_text sample_runtime (lit ''  Hello   World '')) =
     normalize_text sample_runtime (lit ''  Hello   World '')"
proof -
  have e: "normalize_text sample_runtime (lit ''  Hello   World '') = lit ''Hello World''"
    by (simp add: normalize_text_def Let_def lit_def isprintable_def is_space_def strip_def)
  have h: "list_all (\<lambda>p. \<not> contains p (normalize_text sample_runtime (lit ''  Hello   World '')))
     artifact_patterns"
    unfolding e by (simp add: artifact_patterns_def lit_def)
  from h e normalize_text_idempotent_without_artifacts [OF h] show ?thesis by simp
qed

section \<open>The decode chain: properties\<close>

lemma try_encodings_skip:
  "\<not> candidate_accepted rt B bs \<Longrightarrow> try_encodings rt (B # rest) bs = try_encodings rt rest bs"
  by (auto simp: candidate_accepted_def split: sum.splits)

lemma try_encodings_skip_all:
  "list_all (\<lambda>B. \<not> candidate_accepted rt B bs) pre \<Longrightarrow>
   try_encodings rt (pre @ rest) bs = try_encodings rt rest bs"
proof (induction pre)
  case Nil
  then show ?case by simp
next
  case (Cons B pre)
  then have "\<not> candidate_accepted rt B bs" by simp
  then have "try_encodings rt (B # (pre @ rest)) bs = try_encodings rt (pre @ rest) bs"
    by (rule try_encodings_skip)
  with Cons show ?case by simp
qed

lemma try_encodings_accept:
  "codec_decode rt A bs = Inr dA \<Longrightarrow> ratio_above_threshold rt dA = Inr True \<Longrightarrow>
   try_encodings rt (A # rest) bs = Some dA"
  by simp

lemma try_encodings_result_accepted:
  "try_encodings rt encs bs = Some d \<Longrightarrow>
   \<exists>e \<in> set encs. codec_decode rt e bs = Inr d \<and> ratio_above_threshold rt d = Inr True"
  by (induction encs) (auto split: sum.splits if_splits)

lemma decode_bytes_all_rejected:
  "detected_decode rt bs = None \<Longrightarrow> try_encodings rt encodings_to_try bs = None \<Longrightarrow>
   decode_bytes rt bs = utf8_decode_replace rt bs"
  by (simp add: decode_bytes_def)

lemma decode_str_chain:
  "is_indic text \<longrightarrow> iscii_attempt rt (utf8_encode_ignore (repair text)) = None \<Longrightarrow>
   decode_str rt text = decode_bytes rt (utf8_encode_ignore (repair text))"
  by (auto simp: decode_str_def repair_def Let_def)

text \<open>
  C1. On a bytes argument the function raises: the marker check tests string markers
  against the argument before any \<open>try\<close>, and the first test raises TypeError, on the
  empty bytes object as on any other. On a string argument it always returns a string.
\<close>

theorem decode_indic_text_bytes_raises:
  "any_marker_in indic_markers (Bytes []) = Inl TypeError \<and>
   decode_indic_text rt (Bytes []) = Inl TypeError \<and>
   decode_indic_text rt (Bytes b) = Inl TypeError \<and>
   decode_indic_text rt (Str text) = Inr (decode_str rt text)"
  by (simp add: indic_markers_def)

lemma sample_fields:
  "printable_hi sample_runtime = sample_printable_hi"
  "alnum_hi sample_runtime = sample_alnum_hi"
  "chardet_detect sample_runtime = sample_detect"
  "codec_decode sample_runtime = sample_decode"
  "codec_decode_replace sample_runtime = sample_decode_replace"
  "utf8_decode_replace sample_runtime = sample_utf8_replace"
  by (simp_all add: sample_runtime_def)

text \<open>
  C5. The prober's path has no ratio test: when the prober is confident and its encoding
  decodes, that decode is returned whatever its printable ratio. On six letters, twelve
  U+0001 and two U+0000 the prober answers \<open>ascii\<close> with confidence 1; UTF-8, first in the
  list, decodes with ratio 6/20 = 0.3, UTF-16, second, with ratio 9/10 = 0.9, and the
  function returns the former string.
\<close>

theorem decode_returns_low_ratio_candidate:
  "encodings_to_try ! 0 = ''utf-8'' \<and> encodings_to_try ! 1 = ''utf-16'' \<and>
   codec_decode sample_runtime ''utf-8'' (utf8_encode_ignore control_heavy_text) = Inr control_heavy_text \<and>
   printable_count sample_runtime control_heavy_text = 6 \<and> length control_heavy_text = 20 \<and>
   codec_decode sample_runtime ''utf-16'' (utf8_encode_ignore control_heavy_text) =
     Inr [0x6161, 0x6161, 0x6161, 0x101, 0x101, 0x101, 0x101, 0x101, 0x101, 0] \<and>
   printable_count sample_runtime
     [0x6161, 0x6161, 0x6161, 0x101, 0x101, 0x101, 0x101, 0x101, 0x101, 0] = 9 \<and>
   length [0x6161, 0x6161, 0x6161, 0x101, 0x101, 0x101, 0x101, 0x101, 0x101, 0 :: nat] = 10 \<and>
   decode_indic_text sample_runtime (Str control_heavy_text) = Inr control_heavy_text"
proof -
  have o: "encodings_to_try ! 0 = ''utf-8''" "encodings_to_try ! 1 = ''utf-16''"
    by (simp_all add: encodings_to_try_def)
  have e: "utf8_encode_ignore control_heavy_text = control_heavy_text"
    by (simp add: control_heavy_text_def utf8_encode_ignore_def utf8_encode_char_def)
  have u8: "codec_decode sample_runtime ''utf-8'' control_heavy_text = Inr control_heavy_text"
    by (simp add: sample_fields sample_decode_def control_heavy_text_def)
  have u16: "codec_decode sample_runtime ''utf-16'' control_heavy_text =
     Inr [0x6161, 0x6161, 0x6161, 0x101, 0x101, 0x101, 0x101, 0x101, 0x101, 0]"
    by (simp add: sample_fields sample_decode_def utf16_decode_def control_heavy_text_def)
  have p8: "printable_count sample_runtime control_heavy_text = 6"
    by (simp add: printable_count_def isprintable_def control_heavy_text_def)
  have p16: "printable_count sample_runtime
     [0x6161, 0x6161, 0x6161, 0x101, 0x101, 0x101, 0x101, 0x101, 0x101, 0] = 9"
    by (simp add: printable_count_def isprintable_def is_space_def sample_fields
        sample_printable_hi_def)
  have ni: "\<not> is_indic control_heavy_text"
    by (simp add: is_indic_def indic_markers_def control_heavy_text_def)
  have det: "detected_decode sample_runtime control_heavy_text = Some control_heavy_text"
    by (simp add: detected_decode_def sample_fields sample_detect_def sample_decode_def control_heavy_text_def)
  have d: "decode_indic_text sample_runtime (Str control_heavy_text) = Inr control_heavy_text"
    by (simp add: decode_str_def ni e decode_bytes_def det)
  have l: "length control_heavy_text = 20" by (simp add: control_heavy_text_def)
  from o e u8 u16 p8 p16 d l show ?thesis by simp
qed

text \<open>
  C5, as amended. When the prober's path does not return (and, for a text with markers,
  the ISCII attempt does not either), the function returns the decode of the first
  encoding of the list that is accepted: every candidate before it, failing to decode or
  with a printable ratio not above 0.8, is skipped.
\<close>

theorem fallback_returns_first_accepted:
  assumes "is_indic text \<longrightarrow> iscii_attempt rt (utf8_encode_ignore (repair text)) = None"
    and "detected_decode rt (utf8_encode_ignore (repair text)) = None"
    and "encodings_to_try = pre @ A # post"
    and "list_all (\<lambda>B. \<not> candidate_accepted rt B (utf8_encode_ignore (repair text))) pre"
    and "codec_decode rt A (utf8_encode_ignore (repair text)) = Inr dA"
    and "ratio_above_threshold rt dA = Inr True"
  shows "decode_indic_text rt (Str text) = Inr dA"
proof -
  let ?bs = "utf8_encode_ignore (repair text)"
  have "try_encodings rt encodings_to_try ?bs = try_encodings rt (A # post) ?bs"
    unfolding assms(3) using assms(4) by (rule try_encodings_skip_all)
  also have "\<dots> = Some dA" using assms(5,6) by (rule try_encodings_accept)
  finally have "decode_bytes rt ?bs = dA" using assms(2) by (simp add: decode_bytes_def)
  with decode_str_chain [OF assms(1)] show ?thesis by simp
qed

theorem fallback_returns_first_accepted_witness:
  "detected_decode sample_runtime (utf8_encode_ignore (repair [0x1B, 0x01])) = None \<and>
   \<not> candidate_accepted sample_runtime ''utf-8'' (utf8_encode_ignore (repair [0x1B, 0x01])) \<and>
   codec_decode sample_runtime ''utf-16'' (utf8_encode_ignore (repair [0x1B, 0x01])) =
     Inr [0x11B] \<and>
   ratio_above_threshold sample_runtime [0x11B] = Inr True \<and>
   decode_indic_text sample_runtime (Str [0x1B, 0x01]) = Inr [0x11B]"
proof -
  let ?text = "[0x1B, 0x01] :: ustr"
  have ni: "\<not> is_indic ?text" by (simp add: is_indic_def indic_markers_def)
  have r: "repair ?text = ?text" using ni by (simp add: repair_def)
  have e: "utf8_encode_ignore ?text = ?text"
    by (simp add: utf8_encode_ignore_def utf8_encode_char_def)
  have h1: "is_indic ?text \<longrightarrow> iscii_attempt sample_runtime (utf8_encode_ignore (repair ?text)) = None"
    using ni by simp
  have h2: "detected_decode sample_runtime (utf8_encode_ignore (repair ?text)) = None"
    unfolding r e by (simp add: detected_decode_def sample_fields sample_detect_def)
  have h3: "encodings_to_try = [''utf-8''] @ ''utf-16'' # [''utf-32'', ''iso-8859-1'', ''cp1252'',
      ''ascii'', ''latin1'', ''latin_1'', ''iso-8859-15'', ''windows-1252'', ''mac_roman'']"
    by (simp add: encodings_to_try_def)
  have h4: "list_all (\<lambda>B. \<not> candidate_accepted sample_runtime B (utf8_encode_ignore (repair ?text)))
      [''utf-8'']"
    unfolding r e
    by (simp add: candidate_accepted_def sample_fields sample_decode_def
        ratio_above_threshold_def printable_count_def isprintable_def)
  have h5: "codec_decode sample_runtime ''utf-16'' (utf8_encode_ignore (repair ?text)) = Inr [0x11B]"
    unfolding r e by (simp add: sample_fields sample_decode_def utf16_decode_def)
  have h6: "ratio_above_threshold sample_runtime [0x11B] = Inr True"
    by (simp add: ratio_above_threshold_def printable_count_def isprintable_def is_space_def
        sample_fields sample_printable_hi_def)
  from h4 have h4': "\<not> candidate_accepted sample_runtime ''utf-8''
      (utf8_encode_ignore (repair ?text))" by simp
  from fallback_returns_first_accepted [OF h1 h2 h3 h4 h5 h6] h2 h4' h5 h6
  show ?thesis by (simp only: simp_thms)
qed

section \<open>The page loop: properties\<close>

lemma process_pages_blocks:
  "process_pages rt i pages (raw_text, processed_text) =
     Inr (raw_text @ concat (map raw_block (filter has_text (List.enumerate i pages))),
          processed_text @ concat (map (page_block rt) (filter has_text (List.enumerate i pages))))"
  by (induction pages arbitrary: i raw_text processed_text)
     (simp_all add: raw_block_def page_block_def has_text_def Let_def)

lemma decode_str_letter: "decode_str sample_runtime [0x61] = [0x61]"
  by (simp add: decode_str_def is_indic_def indic_markers_def lit_def utf8_encode_ignore_def
      utf8_encode_char_def decode_bytes_def detected_decode_def sample_fields sample_detect_def
      sample_decode_def)

lemma normalize_text_letter: "normalize_text rt [0x61] = [0x61]"
  by (simp add: normalize_text_def Let_def lit_def isprintable_def is_space_def strip_def)

lemma clean_text_letter: "clean_text rt [0x61] = [0x61]"
  by (simp add: clean_text_def Let_def lit_def clean_keeps_def is_word_def is_alnum_latin1_def
      is_space_def strip_def)

lemma str_nat_digits: "str_nat 2 = [0x32]" "str_nat 1 = [0x31]"
  by simp_all

text \<open>
  C8. Not every page gets a marker: a page whose extracted text is empty is skipped. On
  an empty page followed by a page reading \<open>a\<close>, the processed text holds the marker of
  page 2 only, not the concatenation over both pages.
\<close>

theorem process_document_skips_empty_page:
  "process_document sample_runtime [[], lit ''a''] =
     Inr ([0x0A] @ lit ''=== Page 2 Raw ==='' @ [0x0A] @ lit ''a'' @ [0x0A],
          [0x0A] @ lit ''=== Page 2 ==='' @ [0x0A] @ lit ''a'' @ [0x0A]) \<and>
   \<not> contains (page_marker 1) ([0x0A] @ lit ''=== Page 2 ==='' @ [0x0A] @ lit ''a'' @ [0x0A]) \<and>
   concat (map (page_block sample_runtime) (List.enumerate 1 [[], lit ''a''])) \<noteq>
     [0x0A] @ lit ''=== Page 2 ==='' @ [0x0A] @ lit ''a'' @ [0x0A]"
proof -
  have na: "lit ''a'' \<noteq> []" by (simp add: lit_def)
  have 1: "process_document sample_runtime [[], lit ''a''] =
     Inr ([0x0A] @ lit ''=== Page 2 Raw ==='' @ [0x0A] @ lit ''a'' @ [0x0A],
          [0x0A] @ lit ''=== Page 2 ==='' @ [0x0A] @ lit ''a'' @ [0x0A])"
    by (simp add: process_document_def lit_def decode_str_letter normalize_text_letter clean_text_letter page_marker_def raw_page_marker_def str_nat_digits)
  have 2: "\<not> contains (page_marker 1) ([0x0A] @ lit ''=== Page 2 ==='' @ [0x0A] @ lit ''a'' @ [0x0A])"
    by (simp add: page_marker_def lit_def str_nat_digits)
  have 3: "concat (map (page_block sample_runtime) (List.enumerate 1 [[], lit ''a''])) \<noteq>
     [0x0A] @ lit ''=== Page 2 ==='' @ [0x0A] @ lit ''a'' @ [0x0A]"
    by (simp add: page_block_def page_marker_def lit_def str_nat_digits)
  from 1 2 3 show ?thesis by blast
qed

text \<open>
  C8, as amended. The loop is a single pass with no state across pages but the two
  accumulators: the processed text is the concatenation, in input order, of the blocks of
  the pages whose extracted text is not empty, each block being the marker line
  \<open>=== Page n ===\<close> with \<open>n\<close> the page's 1-based position among all input pages, followed
  by the page's decoded, normalized and cleaned text. The raw text is built the same way.
\<close>

theorem process_document_concatenates_blocks:
  "process_document rt pages =
     Inr (concat (map raw_block (filter has_text (List.enumerate 1 pages))),
          concat (map (page_block rt) (filter has_text (List.enumerate 1 pages))))"
  using process_pages_blocks [of rt 1 pages "[]" "[]"] by (simp add: process_document_def)

text \<open>
  The sibling loop \<open>process_for_research\<close> has the same shape: when the list of encodings
  is as long as the list of chunks (its caller builds both together), every chunk yields
  one block, numbered by its position.
\<close>

lemma research_pages_blocks:
  "i + length text_chunks \<le> length encodings \<Longrightarrow>
   research_pages rt i text_chunks encodings encoding processed_text =
     Inr (processed_text @
          concat (map (research_block rt encodings) (List.enumerate i text_chunks)))"
proof (induction text_chunks arbitrary: i encoding processed_text)
  case Nil
  then show ?case by simp
next
  case (Cons chunk text_chunks)
  then have i: "i < length encodings" and rest: "Suc i + length text_chunks \<le> length encodings"
    by simp_all
  show ?case
    using i Cons.IH [OF rest]
    by (simp add: research_block_def Let_def split: sum.splits)
qed

lemma process_for_research_blocks:
  "length text_chunks \<le> length encodings \<Longrightarrow>
   process_for_research rt text_chunks encodings =
     Inr (concat (map (research_block rt encodings) (List.enumerate 0 text_chunks)))"
  using research_pages_blocks [of 0 text_chunks encodings rt None "[]"]
  by (simp add: process_for_research_def)

end
